theory Spec2Isabelle
  imports Main
begin

section \<open>Data model of \<^verbatim>\<open>src/components/DropzoneArea.tsx\<close>\<close>

text \<open>
  \<^verbatim>\<open>FileObject\<close> is the pair of a file handle and its loaded content. The types of
  handles (\<open>'f\<close>), of loaded content (\<open>'d\<close>) and of rejection reasons (\<open>'e\<close>) are
  left open.
\<close>

record ('f, 'd) FileObject =
  "file" :: 'f
  data :: 'd

text \<open>An entry of \<^verbatim>\<open>initialFiles\<close> has type \<^verbatim>\<open>File | string\<close>.\<close>

datatype 'f InitialFile = Url string | Handle 'f

text \<open>
  The four props that the component reads itself, and \<^verbatim>\<open>filesLimit\<close>. An optional
  prop that the host leaves out is \<open>None\<close>. The two callbacks are opaque to the
  component: the model keeps whether the host supplied one, and records every call made
  to it as an effect.
\<close>

record 'f DropzoneAreaProps =
  clearOnUnmount :: "bool option"
  initialFiles :: "'f InitialFile list option"
  filesLimit :: "int option"
  onChange :: bool
  onDelete :: bool

text \<open>
  The state is an array of \<^verbatim>\<open>FileObject\<close>. A JavaScript array slot can hold
  \<^verbatim>\<open>undefined\<close> (line 147 stores \<^verbatim>\<open>newFileObjects[0]\<close>, which is \<^verbatim>\<open>undefined\<close>
  for an empty batch), so a slot is an option: \<open>None\<close> is \<^verbatim>\<open>undefined\<close>.
\<close>

record ('f, 'd) DropzoneAreaState =
  fileObjects :: "('f, 'd) FileObject option list"

text \<open>Line 77: the state a new component starts with.\<close>

definition initialState :: "('f, 'd) DropzoneAreaState" where
  "initialState = \<lparr>fileObjects = []\<rparr>"

text \<open>
  Everything the component does to the outside: calls of the two callback props,
  \<^verbatim>\<open>console.log\<close>, and \<^verbatim>\<open>stopPropagation\<close> on the global event.
\<close>

datatype ('f, 'e) effect =
    OnChange "'f list"
  | OnDelete 'f
  | ConsoleLog 'e
  | StopPropagation

text \<open>Reading a property of \<^verbatim>\<open>undefined\<close> throws a \<^verbatim>\<open>TypeError\<close>.\<close>

datatype exn = TypeError

text \<open>
  The result of one lifecycle method or event handler: the state afterwards, the effects
  in the order they happened, and the exception that escaped, if any.
\<close>

record ('f, 'd, 'e) Outcome =
  st :: "('f, 'd) DropzoneAreaState"
  calls :: "('f, 'e) effect list"
  raised :: "exn option"

text \<open>
  What the component takes from its surroundings: the two helpers imported from
  \<^verbatim>\<open>../helpers\<close> (line 4), each of which either resolves (\<open>Inr\<close>) or rejects (\<open>Inl\<close>), and
  whether the global \<^verbatim>\<open>event\<close> of line 162 is defined.
\<close>

record ('f, 'd, 'e) Host =
  createFileFromUrl :: "string \<Rightarrow> 'e + 'f"
  readFile :: "'f \<Rightarrow> 'e + 'd"
  windowEvent :: bool

section \<open>Default props\<close>

text \<open>
  Lines 71--75. A prop that is \<^verbatim>\<open>undefined\<close> takes its value from \<^verbatim>\<open>defaultProps\<close>;
  lines 108 and 140 repeat that default in the destructuring.
\<close>

definition props_clearOnUnmount :: "'f DropzoneAreaProps \<Rightarrow> bool" where
  "props_clearOnUnmount p = (case clearOnUnmount p of None \<Rightarrow> True | Some b \<Rightarrow> b)"

definition props_filesLimit :: "'f DropzoneAreaProps \<Rightarrow> int" where
  "props_filesLimit p = (case filesLimit p of None \<Rightarrow> 3 | Some n \<Rightarrow> n)"

definition props_initialFiles :: "'f DropzoneAreaProps \<Rightarrow> 'f InitialFile list" where
  "props_initialFiles p = (case initialFiles p of None \<Rightarrow> [] | Some fs \<Rightarrow> fs)"

section \<open>JavaScript array operations\<close>

text \<open>\<^verbatim>\<open>xs[i]\<close>: \<^verbatim>\<open>undefined\<close> when \<open>i\<close> is out of range.\<close>

definition js_index :: "'a list \<Rightarrow> nat \<Rightarrow> 'a option" where
  "js_index xs i = (if i < length xs then Some (xs ! i) else None)"

text \<open>\<^verbatim>\<open>xs.filter((x, i) => keep(x, i))\<close>: the kept elements, in their order.\<close>

definition js_filter :: "('a \<Rightarrow> nat \<Rightarrow> bool) \<Rightarrow> 'a list \<Rightarrow> 'a list" where
  "js_filter keep xs = map snd (filter (\<lambda>(i, x). keep x i) (enumerate 0 xs))"

text \<open>
  All results in input order when every one succeeded, a failure otherwise. This is
  \<^verbatim>\<open>Promise.all\<close> over promises that have settled (line 112), and
  \<^verbatim>\<open>Array.prototype.map\<close> with a function that may throw (line 103). Of several
  failures the model reports the first in list order; for \<^verbatim>\<open>Promise.all\<close> that is the
  case where the promises settle in input order.
\<close>

fun collect :: "('x + 'a) list \<Rightarrow> 'x + 'a list" where
  "collect [] = Inr []"
| "collect (Inl e # rs) = Inl e"
| "collect (Inr a # rs) = (case collect rs of Inl e \<Rightarrow> Inl e | Inr as \<Rightarrow> Inr (a # as))"

section \<open>The component\<close>

text \<open>
  \<^verbatim>\<open>this.setState(update, callback)\<close> on a mounted component: the update is applied to
  the state, then the callback runs and reads the updated state. This is the documented
  contract of \<^verbatim>\<open>setState\<close>; every lifecycle method and handler is taken as one atomic
  event of the UI thread. An exception of the callback escapes (the callback runs after the body
  that called \<^verbatim>\<open>setState\<close>), with the state already updated.
\<close>

definition setState ::
  "(('f, 'd) DropzoneAreaState \<Rightarrow> ('f, 'd) DropzoneAreaState) \<Rightarrow>
   (('f, 'd) DropzoneAreaState \<Rightarrow> exn + ('f, 'e) effect list) \<Rightarrow>
   ('f, 'd) DropzoneAreaState \<Rightarrow> ('f, 'd, 'e) Outcome" where
  "setState update callback s =
     (let s' = update s in
      case callback s' of
        Inl x \<Rightarrow> \<lparr>st = s', calls = [], raised = Some x\<rparr>
      | Inr effs \<Rightarrow> \<lparr>st = s', calls = effs, raised = None\<rparr>)"

text \<open>Effects that a handler performed before its \<^verbatim>\<open>setState\<close>.\<close>

definition preceded_by :: "('f, 'e) effect list \<Rightarrow> ('f, 'd, 'e) Outcome \<Rightarrow> ('f, 'd, 'e) Outcome" where
  "preceded_by effs out = out\<lparr>calls := effs @ calls out\<rparr>"

text \<open>Line 103: \<^verbatim>\<open>fileObject.file\<close>, which throws when the slot holds \<^verbatim>\<open>undefined\<close>.\<close>

definition file_of :: "('f, 'd) FileObject option \<Rightarrow> exn + 'f" where
  "file_of slot = (case slot of None \<Rightarrow> Inl TypeError | Some fileObject \<Rightarrow> Inr (file fileObject))"

text \<open>Lines 98--105.\<close>

definition notifyFileChange ::
  "'f DropzoneAreaProps \<Rightarrow> ('f, 'd) DropzoneAreaState \<Rightarrow> exn + ('f, 'e) effect list" where
  "notifyFileChange p s =
     (if onChange p then
        (case collect (map file_of (fileObjects s)) of
           Inl x \<Rightarrow> Inl x
         | Inr files \<Rightarrow> Inr [OnChange files])
      else Inr [])"

text \<open>
  \<^verbatim>\<open>this.setState(update, callback)\<close> called from \<^verbatim>\<open>componentWillUnmount\<close>: React
  removes the component in the same commit and drops a state update queued while it
  unmounts, so the update is never applied and the callback never runs.
\<close>

definition setState_unmounting ::
  "(('f, 'd) DropzoneAreaState \<Rightarrow> ('f, 'd) DropzoneAreaState) \<Rightarrow>
   (('f, 'd) DropzoneAreaState \<Rightarrow> exn + ('f, 'e) effect list) \<Rightarrow>
   ('f, 'd) DropzoneAreaState \<Rightarrow> ('f, 'd, 'e) Outcome" where
  "setState_unmounting update callback s = \<lparr>st = s, calls = [], raised = None\<rparr>"

text \<open>Lines 85--96.\<close>

definition componentWillUnmount ::
  "'f DropzoneAreaProps \<Rightarrow> ('f, 'd) DropzoneAreaState \<Rightarrow> ('f, 'd, 'e) Outcome" where
  "componentWillUnmount p s =
     (if props_clearOnUnmount p then
        setState_unmounting (\<lambda>prevState. prevState\<lparr>fileObjects := []\<rparr>)
          (notifyFileChange p) s
      else \<lparr>st = s, calls = [], raised = None\<rparr>)"

text \<open>Lines 114--119: the file handle of one initial entry.\<close>

definition resolveFile :: "('f, 'd, 'e) Host \<Rightarrow> 'f InitialFile \<Rightarrow> 'e + 'f" where
  "resolveFile h initialFile =
     (case initialFile of Url u \<Rightarrow> createFileFromUrl h u | Handle f \<Rightarrow> Inr f)"

text \<open>Lines 113--124: the asynchronous function mapped over \<^verbatim>\<open>initialFiles\<close>.\<close>

definition loadOne :: "('f, 'd, 'e) Host \<Rightarrow> 'f InitialFile \<Rightarrow> 'e + ('f, 'd) FileObject" where
  "loadOne h initialFile =
     (case resolveFile h initialFile of
        Inl e \<Rightarrow> Inl e
      | Inr f \<Rightarrow>
          (case readFile h f of
             Inl e \<Rightarrow> Inl e
           | Inr d \<Rightarrow> Inr \<lparr>file = f, data = d\<rparr>))"

text \<open>
  Lines 107--137. The state \<open>s\<close> is the one the update of line 127 finds
  (\<^verbatim>\<open>prevState\<close>).
\<close>

definition loadInitialFiles ::
  "'f DropzoneAreaProps \<Rightarrow> ('f, 'd, 'e) Host \<Rightarrow> ('f, 'd) DropzoneAreaState \<Rightarrow> ('f, 'd, 'e) Outcome" where
  "loadInitialFiles p h s =
     (case collect (map (loadOne h) (props_initialFiles p)) of
        Inl err \<Rightarrow> \<lparr>st = s, calls = [ConsoleLog err], raised = None\<rparr>
      | Inr fileObjs \<Rightarrow>
          setState
            (\<lambda>prevState. prevState\<lparr>fileObjects := fileObjects prevState @ map Some fileObjs\<rparr>)
            (notifyFileChange p) s)"

text \<open>Lines 81--83.\<close>

definition componentDidMount ::
  "'f DropzoneAreaProps \<Rightarrow> ('f, 'd, 'e) Host \<Rightarrow> ('f, 'd) DropzoneAreaState \<Rightarrow> ('f, 'd, 'e) Outcome" where
  "componentDidMount p h s = loadInitialFiles p h s"

text \<open>Lines 139--156.\<close>

definition addFiles ::
  "'f DropzoneAreaProps \<Rightarrow> ('f, 'd) FileObject list \<Rightarrow> ('f, 'd) DropzoneAreaState \<Rightarrow>
   ('f, 'd, 'e) Outcome" where
  "addFiles p newFileObjects s =
     setState
       (\<lambda>prevState.
          if props_filesLimit p \<le> 1 then
            prevState\<lparr>fileObjects := [js_index newFileObjects 0]\<rparr>
          else
            prevState\<lparr>fileObjects := fileObjects prevState @ map Some newFileObjects\<rparr>)
       (notifyFileChange p) s"

text \<open>Lines 158--184.\<close>

definition deleteFile ::
  "'f DropzoneAreaProps \<Rightarrow> ('f, 'd, 'e) Host \<Rightarrow> ('f, 'd) FileObject \<Rightarrow> int \<Rightarrow>
   ('f, 'd) DropzoneAreaState \<Rightarrow> ('f, 'd, 'e) Outcome" where
  "deleteFile p h removedFileObj removedFileObjIdx s =
     (let remainingFileObjs =
            js_filter (\<lambda>fileObject i. int i \<noteq> removedFileObjIdx) (fileObjects s)
      in preceded_by
           ((if windowEvent h then [StopPropagation] else []) @
            (if onDelete p then [OnDelete (file removedFileObj)] else []))
           (setState (\<lambda>prevState. prevState\<lparr>fileObjects := remainingFileObjs\<rparr>)
              (notifyFileChange p) s))"

text \<open>The events of the component's life, and the method that handles each.\<close>

datatype ('f, 'd) action =
    Mount
  | Add "('f, 'd) FileObject list"
  | Delete "('f, 'd) FileObject" int
  | Unmount

fun step ::
  "'f DropzoneAreaProps \<Rightarrow> ('f, 'd, 'e) Host \<Rightarrow> ('f, 'd) action \<Rightarrow>
   ('f, 'd) DropzoneAreaState \<Rightarrow> ('f, 'd, 'e) Outcome" where
  "step p h Mount s = componentDidMount p h s"
| "step p h (Add newFileObjects) s = addFiles p newFileObjects s"
| "step p h (Delete removedFileObj removedFileObjIdx) s =
     deleteFile p h removedFileObj removedFileObjIdx s"
| "step p h Unmount s = componentWillUnmount p s"

section \<open>Concrete inputs\<close>

text \<open>
  A host whose URL fetch fails for one URL only, props with two initial files, and the
  two records those files load to.
\<close>

definition sampleHost :: "(string, string, string) Host" where
  "sampleHost =
     \<lparr>createFileFromUrl = (\<lambda>u. if u = ''gone'' then Inl ''404'' else Inr u),
      readFile = (\<lambda>f. Inr (''data:'' @ f)),
      windowEvent = False\<rparr>"

definition sampleProps :: "string DropzoneAreaProps" where
  "sampleProps =
     \<lparr>clearOnUnmount = None,
      initialFiles = Some [Url ''a.png'', Handle ''b.txt''],
      filesLimit = None,
      onChange = True,
      onDelete = True\<rparr>"

definition recA :: "(string, string) FileObject" where
  "recA = \<lparr>file = ''a.png'', data = ''data:a.png''\<rparr>"

definition recB :: "(string, string) FileObject" where
  "recB = \<lparr>file = ''b.txt'', data = ''data:b.txt''\<rparr>"

section \<open>Lemmas on the array operations\<close>

lemma collect_all_ok: "collect (map Inr xs) = Inr xs"
  by (induction xs) simp_all

lemma collect_map_ok:
  "\<forall>x \<in> set xs. \<not> isl (f x) \<Longrightarrow> collect (map f xs) = Inr (map (projr \<circ> f) xs)"
proof (induction xs)
  case Nil
  then show ?case by simp
next
  case (Cons x xs)
  then obtain a where "f x = Inr a" by (cases "f x") auto
  with Cons show ?case by simp
qed

lemma collect_map_fails:
  "\<exists>x \<in> set xs. isl (f x) \<Longrightarrow> \<exists>x \<in> set xs. collect (map f xs) = Inl (projl (f x)) \<and> isl (f x)"
proof (induction xs)
  case Nil
  then show ?case by simp
next
  case (Cons x xs)
  show ?case
  proof (cases "f x")
    case (Inl e)
    then show ?thesis by simp
  next
    case (Inr a)
    with Cons.prems have "\<exists>y \<in> set xs. isl (f y)" by auto
    then obtain y where "y \<in> set xs" "collect (map f xs) = Inl (projl (f y))" "isl (f y)"
      using Cons.IH by blast
    with Inr show ?thesis by auto
  qed
qed

lemma collect_file_of_records: "collect (map file_of (map Some rs)) = Inr (map file rs)"
  by (induction rs) (simp_all add: file_of_def)

lemma filter_enumerate_skip:
  "i < length xs \<Longrightarrow>
   map snd (filter (\<lambda>(j, x). j \<noteq> n + i) (enumerate n xs)) = take i xs @ drop (Suc i) xs"
proof (induction xs arbitrary: n i)
  case Nil
  then show ?case by simp
next
  case (Cons x xs)
  show ?case
  proof (cases i)
    case 0
    have "filter (\<lambda>(j, x). j \<noteq> n) (enumerate (Suc n) xs) = enumerate (Suc n) xs"
      by (rule filter_True) (auto simp: in_set_enumerate_eq)
    with 0 show ?thesis by simp
  next
    case (Suc k)
    with Cons.prems have "k < length xs" by simp
    from Cons.IH [OF this, of "Suc n"] Suc show ?thesis by simp
  qed
qed

lemma js_filter_skip:
  "i < length xs \<Longrightarrow> js_filter (\<lambda>x j. int j \<noteq> int i) xs = take i xs @ drop (Suc i) xs"
  using filter_enumerate_skip [of i xs 0] by (simp add: js_filter_def)

lemma js_filter_out_of_range:
  "idx < 0 \<or> int (length xs) \<le> idx \<Longrightarrow> js_filter (\<lambda>x j. int j \<noteq> idx) xs = xs"
proof -
  assume r: "idx < 0 \<or> int (length xs) \<le> idx"
  have "filter (\<lambda>(j, x). int j \<noteq> idx) (enumerate 0 xs) = enumerate 0 xs"
    by (rule filter_True) (use r in \<open>auto simp: in_set_enumerate_eq\<close>)
  then show ?thesis by (simp add: js_filter_def)
qed

lemma notifyFileChange_records:
  "notifyFileChange p \<lparr>fileObjects = map Some rs\<rparr> =
     Inr (if onChange p then [OnChange (map file rs)] else [])"
  by (simp add: notifyFileChange_def collect_file_of_records del: map_map)

section \<open>Lemmas on the component\<close>

lemma loadOne_file:
  "\<not> isl (loadOne h x) \<Longrightarrow> file (projr (loadOne h x)) = projr (resolveFile h x)"
  by (auto simp: loadOne_def split: sum.splits)

lemma setState_records:
  "update s = \<lparr>fileObjects = map Some rs\<rparr> \<Longrightarrow>
   setState update (notifyFileChange p) s =
     \<lparr>st = \<lparr>fileObjects = map Some rs\<rparr>,
      calls = (if onChange p then [OnChange (map file rs)] else []),
      raised = None\<rparr>"
  by (simp add: setState_def notifyFileChange_records)

lemma loadInitialFiles_ok:
  assumes "\<forall>x \<in> set (props_initialFiles p). \<not> isl (loadOne h x)"
  shows "loadInitialFiles p h \<lparr>fileObjects = map Some rs\<rparr> =
     \<lparr>st = \<lparr>fileObjects = map Some (rs @ map (projr \<circ> loadOne h) (props_initialFiles p))\<rparr>,
      calls = (if onChange p
               then [OnChange (map file (rs @ map (projr \<circ> loadOne h) (props_initialFiles p)))]
               else []),
      raised = None\<rparr>"
proof -
  let ?new = "map (projr \<circ> loadOne h) (props_initialFiles p)"
  have "loadInitialFiles p h \<lparr>fileObjects = map Some rs\<rparr> =
        setState (\<lambda>prevState. prevState\<lparr>fileObjects := fileObjects prevState @ map Some ?new\<rparr>)
          (notifyFileChange p) \<lparr>fileObjects = map Some rs\<rparr>"
    using collect_map_ok [OF assms] by (simp add: loadInitialFiles_def)
  also have "\<dots> = \<lparr>st = \<lparr>fileObjects = map Some (rs @ ?new)\<rparr>,
      calls = (if onChange p then [OnChange (map file (rs @ ?new))] else []),
      raised = None\<rparr>"
    by (rule setState_records) simp
  finally show ?thesis .
qed

lemma setState_cases:
  "setState update callback s =
     (case callback (update s) of
        Inl x \<Rightarrow> \<lparr>st = update s, calls = [], raised = Some x\<rparr>
      | Inr effs \<Rightarrow> \<lparr>st = update s, calls = effs, raised = None\<rparr>)"
  by (simp add: setState_def Let_def)

lemma st_setState: "st (setState update callback s) = update s"
  by (simp add: setState_cases split: sum.splits)

lemma st_preceded_by: "st (preceded_by effs out) = st out"
  by (simp add: preceded_by_def)

lemma calls_preceded_by: "calls (preceded_by effs out) = effs @ calls out"
  by (simp add: preceded_by_def)

lemma deleteFile_records:
  assumes "js_filter (\<lambda>fileObject i. int i \<noteq> idx) (map Some rs) = map Some rs'"
  shows "deleteFile p h r idx \<lparr>fileObjects = map Some rs\<rparr> =
     \<lparr>st = \<lparr>fileObjects = map Some rs'\<rparr>,
      calls = (if windowEvent h then [StopPropagation] else []) @
              (if onDelete p then [OnDelete (file r)] else []) @
              (if onChange p then [OnChange (map file rs')] else []),
      raised = None\<rparr>"
proof -
  have "setState (\<lambda>prevState. prevState\<lparr>fileObjects := map Some rs'\<rparr>) (notifyFileChange p)
          \<lparr>fileObjects = map Some rs\<rparr> =
        (\<lparr>st = \<lparr>fileObjects = map Some rs'\<rparr>,
          calls = (if onChange p then [OnChange (map file rs')] else []),
          raised = None\<rparr> :: (_, _, 'c) Outcome)"
    by (rule setState_records) simp
  then show ?thesis
    using assms by (simp add: deleteFile_def preceded_by_def)
qed

lemma addFiles_single:
  "props_filesLimit p \<le> 1 \<Longrightarrow>
   fileObjects (st (addFiles p newFileObjects s)) = [js_index newFileObjects 0]"
  by (simp add: addFiles_def setState_def Let_def split: sum.splits)

lemma collect_file_of_handles:
  "collect (map file_of slots) = Inr files \<Longrightarrow> map (map_option file) slots = map Some files"
proof (induction slots arbitrary: files)
  case Nil
  then show ?case by simp
next
  case (Cons slot slots)
  then show ?case
    by (cases slot) (auto simp: file_of_def split: sum.splits)
qed

lemma setState_notify_onChange:
  assumes "OnChange files \<in>
             set (calls (setState update (notifyFileChange p) s :: ('f, 'd, 'e) Outcome))"
  shows "map (map_option file)
           (fileObjects (st (setState update (notifyFileChange p) s :: ('f, 'd, 'e) Outcome))) =
         map Some files"
proof (cases "notifyFileChange p (update s) :: exn + ('f, 'e) effect list")
  case (Inl x)
  with assms show ?thesis by (simp add: setState_cases)
next
  case (Inr effs)
  with assms have "OnChange files \<in> set effs" by (simp add: setState_cases)
  with Inr have "collect (map file_of (fileObjects (update s))) = Inr files"
    by (auto simp: notifyFileChange_def split: if_splits sum.splits)
  from collect_file_of_handles [OF this] show ?thesis by (simp add: st_setState)
qed

lemma length_js_filter: "length (js_filter keep xs) \<le> length xs"
proof -
  have "length (filter (\<lambda>(i, x). keep x i) (enumerate 0 xs)) \<le> length (enumerate 0 xs)"
    by (rule length_filter_le)
  then show ?thesis by (simp add: js_filter_def)
qed

lemma limit_one_kept_by_handlers:
  assumes "props_filesLimit p \<le> 1" and "a \<noteq> Mount" and "length (fileObjects s) \<le> 1"
  shows "length (fileObjects (st (step p h a s))) \<le> 1"
proof (cases a)
  case Mount
  with assms(2) show ?thesis by simp
next
  case (Add newFileObjects)
  with assms(1) show ?thesis by (simp add: addFiles_def st_setState)
next
  case (Delete r idx)
  have "length (js_filter (\<lambda>fileObject i. int i \<noteq> idx) (fileObjects s)) \<le> length (fileObjects s)"
    by (rule length_js_filter)
  with Delete assms(3) show ?thesis
    by (simp add: deleteFile_def st_preceded_by st_setState Let_def)
next
  case Unmount
  with assms(3) show ?thesis by (simp add: componentWillUnmount_def setState_unmounting_def)
qed

lemma componentWillUnmount_no_effect:
  "componentWillUnmount p s = \<lparr>st = s, calls = [], raised = None\<rparr>"
  by (simp add: componentWillUnmount_def setState_unmounting_def)

lemma setState_notifies:
  assumes "fileObjects (update s) = map Some rs"
  shows "setState update (notifyFileChange p) s =
     \<lparr>st = update s,
      calls = (if onChange p then [OnChange (map file rs)] else []),
      raised = None\<rparr>"
proof -
  have u: "update s = \<lparr>fileObjects = map Some rs\<rparr>"
    using assms by (cases "update s") simp
  show ?thesis
    unfolding u [symmetric] using u by (simp add: setState_records)
qed

lemma addFiles_notifies:
  assumes "fileObjects (st (addFiles p newFileObjects s :: ('f, 'd, 'e) Outcome)) = map Some rs"
  shows "calls (addFiles p newFileObjects s :: ('f, 'd, 'e) Outcome) =
           (if onChange p then [OnChange (map file rs)] else []) \<and>
         raised (addFiles p newFileObjects s :: ('f, 'd, 'e) Outcome) = None"
proof -
  let ?update = "\<lambda>prevState.
          if props_filesLimit p \<le> 1 then
            prevState\<lparr>fileObjects := [js_index newFileObjects 0]\<rparr>
          else
            prevState\<lparr>fileObjects := fileObjects prevState @ map Some newFileObjects\<rparr>"
  have a: "(addFiles p newFileObjects s :: ('f, 'd, 'e) Outcome) =
             setState ?update (notifyFileChange p) s"
    by (simp add: addFiles_def)
  from assms have u: "fileObjects (?update s) = map Some rs"
    unfolding a st_setState .
  have e: "setState ?update (notifyFileChange p) s =
      (\<lparr>st = ?update s,
        calls = (if onChange p then [OnChange (map file rs)] else []),
        raised = None\<rparr> :: ('f, 'd, 'e) Outcome)"
    by (rule setState_notifies) (rule u)
  show ?thesis
    unfolding a e by simp
qed

lemma deleteFile_notifies:
  fixes h :: "('f, 'd, 'e) Host"
  assumes "fileObjects (st (deleteFile p h r idx s)) = map Some rs"
  shows "calls (deleteFile p h r idx s) =
           (if windowEvent h then [StopPropagation] else []) @
           (if onDelete p then [OnDelete (file r)] else []) @
           (if onChange p then [OnChange (map file rs)] else []) \<and>
         raised (deleteFile p h r idx s) = None"
proof -
  let ?update = "\<lambda>prevState. prevState
          \<lparr>fileObjects := js_filter (\<lambda>fileObject i. int i \<noteq> idx) (fileObjects s)\<rparr>"
  have d: "deleteFile p h r idx s =
             preceded_by
               ((if windowEvent h then [StopPropagation] else []) @
                (if onDelete p then [OnDelete (file r)] else []))
               (setState ?update (notifyFileChange p) s)"
    by (simp add: deleteFile_def Let_def)
  from assms have u: "fileObjects (?update s) = map Some rs"
    unfolding d st_preceded_by st_setState .
  have e: "setState ?update (notifyFileChange p) s =
      (\<lparr>st = ?update s,
        calls = (if onChange p then [OnChange (map file rs)] else []),
        raised = None\<rparr> :: ('f, 'd, 'e) Outcome)"
    by (rule setState_notifies) (rule u)
  show ?thesis
    unfolding d e preceded_by_def by simp
qed

lemma loadInitialFiles_notifies:
  fixes h :: "('f, 'd, 'e) Host"
  assumes "collect (map (loadOne h) (props_initialFiles p)) = Inr fileObjs"
    and "fileObjects (st (componentDidMount p h s)) = map Some rs"
  shows "calls (componentDidMount p h s) =
           (if onChange p then [OnChange (map file rs)] else []) \<and>
         raised (componentDidMount p h s) = None"
proof -
  let ?update = "\<lambda>prevState.
          prevState\<lparr>fileObjects := fileObjects prevState @ map Some fileObjs\<rparr>"
  have m: "componentDidMount p h s = setState ?update (notifyFileChange p) s"
    using assms(1) by (simp add: componentDidMount_def loadInitialFiles_def)
  from assms(2) have u: "fileObjects (?update s) = map Some rs"
    unfolding m st_setState .
  have e: "setState ?update (notifyFileChange p) s =
      (\<lparr>st = ?update s,
        calls = (if onChange p then [OnChange (map file rs)] else []),
        raised = None\<rparr> :: ('f, 'd, 'e) Outcome)"
    by (rule setState_notifies) (rule u)
  show ?thesis
    unfolding m e by simp
qed

lemma onChange_call_carries_state_handles:
  assumes c: "OnChange files \<in> set (calls (step p h a s))"
  shows "map (map_option file) (fileObjects (st (step p h a s))) = map Some files"
proof (cases a)
  case Mount
  show ?thesis
  proof (cases "collect (map (loadOne h) (props_initialFiles p))")
    case (Inl err)
    with c Mount show ?thesis
      by (simp add: componentDidMount_def loadInitialFiles_def)
  next
    case (Inr fileObjs)
    with c Mount show ?thesis
      by (simp add: componentDidMount_def loadInitialFiles_def setState_notify_onChange)
  qed
next
  case (Add newFileObjects)
  with c show ?thesis
    by (simp add: addFiles_def setState_notify_onChange)
next
  case (Delete r idx)
  with c show ?thesis
    by (auto simp: deleteFile_def st_preceded_by calls_preceded_by Let_def
        setState_notify_onChange split: if_splits)
next
  case Unmount
  with c show ?thesis
    by (simp add: componentWillUnmount_no_effect)
qed

section \<open>Hydration on mount\<close>

text \<open>
  C1. When every entry of the initial-files list resolves and loads, mounting (from the
  initial, empty state) leaves exactly one record per entry in the state, in input order,
  and the change callback, when the host supplied one, is called exactly once, with the
  file handles of those entries in that order. Nothing is thrown.
\<close>

theorem mount_all_valid:
  assumes "\<forall>x \<in> set (props_initialFiles p). \<not> isl (loadOne h x)"
  shows "fileObjects (st (componentDidMount p h initialState)) =
           map (\<lambda>x. Some (projr (loadOne h x))) (props_initialFiles p) \<and>
         length (fileObjects (st (componentDidMount p h initialState))) =
           length (props_initialFiles p) \<and>
         calls (componentDidMount p h initialState) =
           (if onChange p
            then [OnChange (map (\<lambda>x. projr (resolveFile h x)) (props_initialFiles p))]
            else []) \<and>
         raised (componentDidMount p h initialState) = None"
proof -
  have "map (file \<circ> (projr \<circ> loadOne h)) (props_initialFiles p) =
        map (\<lambda>x. projr (resolveFile h x)) (props_initialFiles p)"
    using assms by (auto simp: loadOne_file)
  then show ?thesis
    using loadInitialFiles_ok [OF assms, of "[]"]
    by (simp add: componentDidMount_def initialState_def comp_def)
qed

theorem mount_all_valid_witness:
  "fileObjects (st (componentDidMount sampleProps sampleHost initialState)) = [Some recA, Some recB] \<and>
   calls (componentDidMount sampleProps sampleHost initialState) = [OnChange [''a.png'', ''b.txt'']]"
  using mount_all_valid [of sampleProps sampleHost]
  by (simp add: sampleProps_def sampleHost_def props_initialFiles_def loadOne_def
      resolveFile_def recA_def recB_def)

text \<open>
  C2. When at least one entry of the initial-files list fails to resolve or to load, the
  hydration commits nothing: the state is the one it found (empty after a mount from the
  initial state), the only effect is one \<^verbatim>\<open>console.log\<close> of the rejection of a failing
  entry, so neither callback is called, and nothing is thrown.
\<close>

theorem mount_any_failure:
  assumes "\<exists>x \<in> set (props_initialFiles p). isl (loadOne h x)"
  shows "st (componentDidMount p h s) = s \<and>
         fileObjects (st (componentDidMount p h initialState)) = [] \<and>
         (\<exists>x \<in> set (props_initialFiles p).
            isl (loadOne h x) \<and>
            calls (componentDidMount p h s) = [ConsoleLog (projl (loadOne h x))]) \<and>
         raised (componentDidMount p h s) = None"
proof -
  obtain x where x: "x \<in> set (props_initialFiles p)" "isl (loadOne h x)"
    "collect (map (loadOne h) (props_initialFiles p)) = Inl (projl (loadOne h x))"
    using collect_map_fails [OF assms] by blast
  have "\<And>s. componentDidMount p h s =
      \<lparr>st = s, calls = [ConsoleLog (projl (loadOne h x))], raised = None\<rparr>"
    using x(3) by (simp add: componentDidMount_def loadInitialFiles_def)
  with x(1,2) show ?thesis by (auto simp: initialState_def)
qed

theorem mount_any_failure_witness:
  "isl (loadOne sampleHost (Url ''gone'')) \<and>
   componentDidMount (sampleProps\<lparr>initialFiles := Some [Handle ''b.txt'', Url ''gone'']\<rparr>)
     sampleHost \<lparr>fileObjects = [Some recA]\<rparr> =
   \<lparr>st = \<lparr>fileObjects = [Some recA]\<rparr>, calls = [ConsoleLog ''404''], raised = None\<rparr>"
  using mount_any_failure [of "sampleProps\<lparr>initialFiles := Some [Handle ''b.txt'', Url ''gone'']\<rparr>"
      sampleHost "\<lparr>fileObjects = [Some recA]\<rparr>"]
  by (simp add: sampleProps_def sampleHost_def props_initialFiles_def loadOne_def
      resolveFile_def)

section \<open>Adding files\<close>

text \<open>
  C3, as stated: with a file limit of 1 and a batch of two records, the state afterwards
  is not the list of the record added last. The update of line 147 keeps
  \<^verbatim>\<open>newFileObjects[0]\<close>.
\<close>

theorem addFiles_limit_one_not_last:
  "props_filesLimit (sampleProps\<lparr>filesLimit := Some 1\<rparr>) = 1 \<and>
   [recA, recB] \<noteq> [] \<and>
   fileObjects (st (addFiles (sampleProps\<lparr>filesLimit := Some 1\<rparr>) [recA, recB] initialState
     :: (string, string, string) Outcome)) = [Some recA] \<and>
   fileObjects (st (addFiles (sampleProps\<lparr>filesLimit := Some 1\<rparr>) [recA, recB] initialState
     :: (string, string, string) Outcome)) \<noteq> [Some (last [recA, recB])]"
  by (simp add: props_filesLimit_def sampleProps_def addFiles_def setState_def js_index_def
      notifyFileChange_def file_of_def initialState_def recA_def recB_def)

text \<open>
  C3, amended. With a file limit of 1 and a non-empty batch, \<^verbatim>\<open>addFiles\<close> replaces the
  whole list, whatever it held, by the one-element list of the first record of the
  batch. For a batch of one record (\<open>rest = []\<close>) that is the record just added.
\<close>

theorem addFiles_limit_one_keeps_first:
  "props_filesLimit p = 1 \<Longrightarrow>
   fileObjects (st (addFiles p (r # rest) s :: ('f, 'd, 'e) Outcome)) = [Some r]"
  using addFiles_single [of p "r # rest" s] by (simp add: js_index_def)

theorem addFiles_limit_one_keeps_first_witness:
  "props_filesLimit (sampleProps\<lparr>filesLimit := Some 1\<rparr>) = 1 \<and>
   fileObjects (st (addFiles (sampleProps\<lparr>filesLimit := Some 1\<rparr>) [recB]
     \<lparr>fileObjects = [Some recA]\<rparr> :: (string, string, string) Outcome)) = [Some recB]"
proof -
  have h: "props_filesLimit (sampleProps\<lparr>filesLimit := Some 1\<rparr>) = 1"
    by (simp add: props_filesLimit_def)
  from addFiles_limit_one_keeps_first [where 'e = string, OF h, of recB "[]"
      "\<lparr>fileObjects = [Some recA]\<rparr>"]
  show ?thesis using h by simp
qed

text \<open>
  C7. With a file limit greater than 1 (the default 3 included), \<^verbatim>\<open>addFiles\<close> appends
  the batch after the entries already there: the old list is a prefix of the new one, so
  every prior entry is kept at its position.
\<close>

theorem addFiles_multi_appends:
  "1 < props_filesLimit p \<Longrightarrow>
   fileObjects (st (addFiles p newFileObjects s :: ('f, 'd, 'e) Outcome)) =
     fileObjects s @ map Some newFileObjects \<and>
   take (length (fileObjects s)) (fileObjects (st (addFiles p newFileObjects s :: ('f, 'd, 'e) Outcome))) =
     fileObjects s"
  by (simp add: addFiles_def setState_def Let_def split: sum.splits)

theorem addFiles_multi_appends_witness:
  "1 < props_filesLimit sampleProps \<and>
   fileObjects (st (addFiles sampleProps [recB] \<lparr>fileObjects = [Some recA]\<rparr>
     :: (string, string, string) Outcome)) = [Some recA, Some recB]"
proof -
  have h: "1 < props_filesLimit sampleProps"
    by (simp add: props_filesLimit_def sampleProps_def)
  from addFiles_multi_appends [where 'e = string, OF h, of "[recB]" "\<lparr>fileObjects = [Some recA]\<rparr>"]
  show ?thesis using h by simp
qed


text \<open>
  C10. With any file limit of at most 1 (0 and negative limits included), \<^verbatim>\<open>addFiles\<close>
  leaves a one-element list, whatever the prior state: it holds the first record of the
  batch. For an empty batch \<^verbatim>\<open>newFileObjects[0]\<close> is \<^verbatim>\<open>undefined\<close>, and the one slot
  holds that.
\<close>

theorem addFiles_limit_le_one:
  "props_filesLimit p \<le> 1 \<Longrightarrow>
   fileObjects (st (addFiles p newFileObjects s :: ('f, 'd, 'e) Outcome)) =
     (case newFileObjects of [] \<Rightarrow> [None] | r # rest \<Rightarrow> [Some r])"
  using addFiles_single [of p newFileObjects s]
  by (cases newFileObjects) (simp_all add: js_index_def)

theorem addFiles_limit_le_one_witness:
  "props_filesLimit (sampleProps\<lparr>filesLimit := Some (- 2)\<rparr>) \<le> 1 \<and>
   fileObjects (st (addFiles (sampleProps\<lparr>filesLimit := Some (- 2)\<rparr>) [recB, recA]
     \<lparr>fileObjects = [Some recA, Some recA]\<rparr> :: (string, string, string) Outcome)) = [Some recB] \<and>
   fileObjects (st (addFiles (sampleProps\<lparr>filesLimit := Some 0\<rparr>) []
     \<lparr>fileObjects = [Some recA, Some recA]\<rparr> :: (string, string, string) Outcome)) = [None]"
proof -
  have h: "props_filesLimit (sampleProps\<lparr>filesLimit := Some (- 2)\<rparr>) \<le> 1"
    by (simp add: props_filesLimit_def)
  have h0: "props_filesLimit (sampleProps\<lparr>filesLimit := Some 0\<rparr>) \<le> 1"
    by (simp add: props_filesLimit_def)
  from addFiles_limit_le_one [where 'e = string, OF h, of "[recB, recA]"
      "\<lparr>fileObjects = [Some recA, Some recA]\<rparr>"]
    addFiles_limit_le_one [where 'e = string, OF h0, of "[]"
      "\<lparr>fileObjects = [Some recA, Some recA]\<rparr>"]
  show ?thesis using h by simp
qed

section \<open>Deleting a file\<close>

text \<open>
  C4. In a state of records \<open>rs\<close>, \<^verbatim>\<open>deleteFile\<close> called with the record at a valid index
  \<open>i\<close> and that index removes exactly that entry and keeps the others in their order
  (the entries before \<open>i\<close>, then those after it); the delete callback, when supplied,
  receives the file handle of that entry, and then the change callback, when supplied,
  receives the handles of the updated list.
\<close>

theorem deleteFile_valid_index:
  assumes "fileObjects s = map Some rs" and "i < length rs"
  shows "deleteFile p h (rs ! i) (int i) s =
     \<lparr>st = \<lparr>fileObjects = map Some (take i rs @ drop (Suc i) rs)\<rparr>,
      calls = (if windowEvent h then [StopPropagation] else []) @
              (if onDelete p then [OnDelete (file (rs ! i))] else []) @
              (if onChange p then [OnChange (map file (take i rs @ drop (Suc i) rs))] else []),
      raised = None\<rparr>"
proof -
  have s: "s = \<lparr>fileObjects = map Some rs\<rparr>"
    using assms(1) by (cases s) simp
  have "js_filter (\<lambda>fileObject j. int j \<noteq> int i) (map Some rs) =
        take i (map Some rs) @ drop (Suc i) (map Some rs)"
    by (rule js_filter_skip) (simp add: assms(2))
  then have "js_filter (\<lambda>fileObject j. int j \<noteq> int i) (map Some rs) =
        map Some (take i rs @ drop (Suc i) rs)"
    by (simp only: take_map drop_map map_append)
  then show ?thesis
    unfolding s by (rule deleteFile_records)
qed

theorem deleteFile_valid_index_witness:
  "deleteFile sampleProps sampleHost recA 0 \<lparr>fileObjects = [Some recA, Some recB]\<rparr> =
     \<lparr>st = \<lparr>fileObjects = [Some recB]\<rparr>,
      calls = [OnDelete ''a.png'', OnChange [''b.txt'']],
      raised = None\<rparr>"
  using deleteFile_valid_index [of "\<lparr>fileObjects = [Some recA, Some recB]\<rparr>" "[recA, recB]" 0
      sampleProps sampleHost]
  by (simp add: sampleProps_def sampleHost_def recA_def recB_def)

text \<open>
  C9. In a state of records \<open>rs\<close>, \<^verbatim>\<open>deleteFile\<close> with an index out of range (negative,
  or at least the length) leaves the state as it is; the delete callback is still called
  with the file handle of the record passed in, and the change callback with the handles
  of the unchanged list.
\<close>

theorem deleteFile_out_of_range:
  assumes "fileObjects s = map Some rs" and "idx < 0 \<or> int (length rs) \<le> idx"
  shows "deleteFile p h r idx s =
     \<lparr>st = s,
      calls = (if windowEvent h then [StopPropagation] else []) @
              (if onDelete p then [OnDelete (file r)] else []) @
              (if onChange p then [OnChange (map file rs)] else []),
      raised = None\<rparr>"
proof -
  have s: "s = \<lparr>fileObjects = map Some rs\<rparr>"
    using assms(1) by (cases s) simp
  have "js_filter (\<lambda>fileObject j. int j \<noteq> idx) (map Some rs) = map Some rs"
    by (rule js_filter_out_of_range) (use assms(2) in simp)
  then show ?thesis
    unfolding s by (rule deleteFile_records)
qed

theorem deleteFile_out_of_range_witness:
  "deleteFile sampleProps sampleHost recB 2 \<lparr>fileObjects = [Some recA, Some recB]\<rparr> =
     \<lparr>st = \<lparr>fileObjects = [Some recA, Some recB]\<rparr>,
      calls = [OnDelete ''b.txt'', OnChange [''a.png'', ''b.txt'']],
      raised = None\<rparr> \<and>
   deleteFile sampleProps sampleHost recB (- 1) \<lparr>fileObjects = [Some recA, Some recB]\<rparr> =
     \<lparr>st = \<lparr>fileObjects = [Some recA, Some recB]\<rparr>,
      calls = [OnDelete ''b.txt'', OnChange [''a.png'', ''b.txt'']],
      raised = None\<rparr>"
  using deleteFile_out_of_range [of "\<lparr>fileObjects = [Some recA, Some recB]\<rparr>" "[recA, recB]" 2
      sampleProps sampleHost recB]
    deleteFile_out_of_range [of "\<lparr>fileObjects = [Some recA, Some recB]\<rparr>" "[recA, recB]" "- 1"
      sampleProps sampleHost recB]
  by (simp add: sampleProps_def sampleHost_def recA_def recB_def)

section \<open>Unmounting\<close>

text \<open>
  C6. The clear on unmount does not happen. With clear-on-unmount left at its default
  (enabled), a change callback supplied and one record in the state,
  \<^verbatim>\<open>componentWillUnmount\<close> calls \<^verbatim>\<open>setState\<close> with the empty list and the notifier
  (line 89), but that update is dropped: the record is still in the state and the change
  callback is not called. With clear-on-unmount disabled nothing happens either, as
  claimed (\<open>componentWillUnmount_no_effect\<close>).
\<close>

theorem componentWillUnmount_clear_dropped:
  "clearOnUnmount sampleProps = None \<and>
   props_clearOnUnmount sampleProps \<and>
   onChange sampleProps \<and>
   (componentWillUnmount sampleProps \<lparr>fileObjects = [Some recA]\<rparr>
      :: (string, string, string) Outcome) =
     \<lparr>st = \<lparr>fileObjects = [Some recA]\<rparr>, calls = [], raised = None\<rparr>"
  by (simp add: sampleProps_def props_clearOnUnmount_def componentWillUnmount_def
      setState_unmounting_def)

section \<open>The change notification\<close>


section \<open>The file limit of 1\<close>

text \<open>
  C5. The bound does not hold after hydration: with a file limit of 1 and two initial
  files that both load, mounting from the empty initial state leaves two records in the
  state. \<^verbatim>\<open>loadInitialFiles\<close> never reads \<^verbatim>\<open>filesLimit\<close>. The handlers keep
  the bound (\<open>limit_one_kept_by_handlers\<close>).
\<close>

theorem hydration_exceeds_limit_one:
  "props_filesLimit (sampleProps\<lparr>filesLimit := Some 1\<rparr>) = 1 \<and>
   fileObjects (st (componentDidMount (sampleProps\<lparr>filesLimit := Some 1\<rparr>) sampleHost initialState)) =
     [Some recA, Some recB] \<and>
   length (fileObjects
     (st (componentDidMount (sampleProps\<lparr>filesLimit := Some 1\<rparr>) sampleHost initialState))) = 2"
  by (simp add: props_filesLimit_def sampleProps_def sampleHost_def componentDidMount_def
      loadInitialFiles_def props_initialFiles_def loadOne_def resolveFile_def setState_def
      notifyFileChange_def file_of_def initialState_def recA_def recB_def)


end
